theory Spec2Isabelle
  imports Main
begin

section \<open>Data model of python\_trading\_engine.py\<close>

text \<open>
  The engine runs single-threaded: the lock of \<open>AtomicCounter\<close> and the simulated
  compare-and-swap helpers of \<open>OrderList\<close> never fail, so every retry loop runs its body
  once. Quantities, prices and indices are Python's unbounded integers. A linked list of
  \<open>Order\<close> nodes (the \<open>next\<close> field) is the list of its nodes from the head; every
  node is created fresh by \<open>TradingEngine.add_order\<close> and linked into one list only.
\<close>

record Order =
  order_type :: string
  ticker :: string
  quantity :: int
  price :: int
  order_id :: int

type_synonym OrderList = "Order list"

record OrderBook =
  buy_orders :: OrderList
  sell_orders :: OrderList

record AtomicCounter =
  counter_value :: int

record TradingEngine =
  order_books :: "OrderBook list"
  order_id_counter :: AtomicCounter

text \<open>
  One line printed by \<open>match_orders\<close>:
  \<^verbatim>\<open>Matched Order: {buy_order.ticker} | Price: {trade_price} | Quantity: {traded_quantity}\<close>.
\<close>

record Trade =
  trade_ticker :: string
  trade_price :: int
  trade_quantity :: int

datatype py_error = IndexError

datatype py_value = PyNone | PyInt int

section \<open>Python built-ins the source uses\<close>

definition digit_char :: "nat \<Rightarrow> char" where
  "digit_char d = ''0123456789'' ! d"

function str_nat :: "nat \<Rightarrow> string" where
  "str_nat n = (if n < 10 then [digit_char n] else str_nat (n div 10) @ [digit_char (n mod 10)])"
  by pat_completeness auto
termination
  by (relation "measure (\<lambda>n. n)") auto

text \<open>\<open>str(i)\<close> on an integer.\<close>

definition py_str :: "int \<Rightarrow> string" where
  "py_str i = (if i < 0 then CHR ''-'' # str_nat (nat (- i)) else str_nat (nat i))"

text \<open>
  \<open>xs[i]\<close>: a negative index counts from the end, an index out of range raises
  \<open>IndexError\<close>. The result is the position read.
\<close>

definition py_index :: "'a list \<Rightarrow> int \<Rightarrow> py_error + nat" where
  "py_index xs i =
     (let n = int (length xs); j = (if i < 0 then i + n else i)
      in if 0 \<le> j \<and> j < n then Inr (nat j) else Inl IndexError)"

section \<open>AtomicCounter\<close>

definition AtomicCounter_init :: "int \<Rightarrow> AtomicCounter" where
  "AtomicCounter_init initial = \<lparr>counter_value = initial\<rparr>"

text \<open>\<open>increment\<close>: adds one and returns the new value.\<close>

definition increment :: "AtomicCounter \<Rightarrow> int \<times> AtomicCounter" where
  "increment c = (counter_value c + 1, c\<lparr>counter_value := counter_value c + 1\<rparr>)"

section \<open>OrderList\<close>

definition OrderList_init :: OrderList where
  "OrderList_init = []"

text \<open>
  The inner loop of \<open>OrderList.add_order\<close>: \<open>current\<close> walks while \<open>current.next\<close>
  exists and is at least as good as the new order; the argument is the list from
  \<open>current.next\<close> on.
\<close>

fun insert_after :: "Order \<Rightarrow> OrderList \<Rightarrow> OrderList" where
  "insert_after new_order [] = [new_order]"
| "insert_after new_order (nxt # rest) =
     (if (order_type new_order = ''Buy'' \<and> price nxt \<ge> price new_order)
         \<or> (order_type new_order = ''Sell'' \<and> price nxt \<le> price new_order)
      then nxt # insert_after new_order rest
      else new_order # nxt # rest)"

definition OrderList_add_order :: "Order \<Rightarrow> OrderList \<Rightarrow> OrderList" where
  "OrderList_add_order new_order xs =
     (case xs of
        [] \<Rightarrow> [new_order]
      | current_head # rest \<Rightarrow>
          if (order_type new_order = ''Buy'' \<and> price new_order > price current_head)
             \<or> (order_type new_order = ''Sell'' \<and> price new_order < price current_head)
          then new_order # current_head # rest
          else current_head # insert_after new_order rest)"

text \<open>\<open>pop_head\<close>: the removed head (or \<open>None\<close>) and the list left.\<close>

definition OrderList_pop_head :: "OrderList \<Rightarrow> Order option \<times> OrderList" where
  "OrderList_pop_head xs =
     (case xs of [] \<Rightarrow> (None, []) | current_head # new_head \<Rightarrow> (Some current_head, new_head))"

section \<open>OrderBook\<close>

definition OrderBook_init :: OrderBook where
  "OrderBook_init = \<lparr>buy_orders = OrderList_init, sell_orders = OrderList_init\<rparr>"

text \<open>
  One pass of the \<open>while\<close> of \<open>match_orders\<close>: \<open>None\<close> when the loop condition is false,
  otherwise the line printed and the book after the body.
\<close>

definition match_iter :: "OrderBook \<Rightarrow> (Trade \<times> OrderBook) option" where
  "match_iter ob =
     (case buy_orders ob of
        [] \<Rightarrow> None
      | buy_order # bs \<Rightarrow>
          (case sell_orders ob of
             [] \<Rightarrow> None
           | sell_order # ss \<Rightarrow>
               if price buy_order \<ge> price sell_order then
                 (let traded_quantity = min (quantity buy_order) (quantity sell_order);
                      line = \<lparr>trade_ticker = ticker buy_order,
                              trade_price = price sell_order,
                              trade_quantity = traded_quantity\<rparr>;
                      buy_order' = buy_order\<lparr>quantity := quantity buy_order - traded_quantity\<rparr>;
                      sell_order' = sell_order\<lparr>quantity := quantity sell_order - traded_quantity\<rparr>;
                      ob1 = ob\<lparr>buy_orders := buy_order' # bs, sell_orders := sell_order' # ss\<rparr>;
                      ob2 = (if quantity buy_order' = 0
                             then ob1\<lparr>buy_orders := snd (OrderList_pop_head (buy_orders ob1))\<rparr>
                             else ob1);
                      ob3 = (if quantity sell_order' = 0
                             then ob2\<lparr>sell_orders := snd (OrderList_pop_head (sell_orders ob2))\<rparr>
                             else ob2)
                  in Some (line, ob3))
               else None))"

definition book_size :: "OrderBook \<Rightarrow> nat" where
  "book_size ob = length (buy_orders ob) + length (sell_orders ob)"

text \<open>\<open>match_orders\<close>: the lines printed, in order, and the book when the loop ends.\<close>

function match_orders :: "OrderBook \<Rightarrow> Trade list \<times> OrderBook" where
  "match_orders ob =
     (case match_iter ob of
        None \<Rightarrow> ([], ob)
      | Some (line, ob') \<Rightarrow> (line # fst (match_orders ob'), snd (match_orders ob')))"
  by pat_completeness auto
termination
  by (relation "measure book_size")
     (auto simp: match_iter_def book_size_def OrderList_pop_head_def Let_def min_def
           split: list.splits if_splits)

declare match_orders.simps [simp del]

definition OrderBook_add_order :: "Order \<Rightarrow> OrderBook \<Rightarrow> Trade list \<times> OrderBook" where
  "OrderBook_add_order new_order ob =
     match_orders
       (if order_type new_order = ''Buy''
        then ob\<lparr>buy_orders := OrderList_add_order new_order (buy_orders ob)\<rparr>
        else ob\<lparr>sell_orders := OrderList_add_order new_order (sell_orders ob)\<rparr>)"

section \<open>TradingEngine\<close>

definition TradingEngine_init :: TradingEngine where
  "TradingEngine_init =
     \<lparr>order_books = replicate 1024 OrderBook_init, order_id_counter = AtomicCounter_init 0\<rparr>"

text \<open>
  \<open>TradingEngine.add_order\<close>: the arguments of \<open>Order(...)\<close> are evaluated first, so the
  counter is incremented before \<open>order_books[ticker_index - 1]\<close> is read. The method has
  no \<open>return\<close> statement: it returns \<open>None\<close>. The result is what the caller sees
  (the exception or the value returned), the lines printed, and the engine afterwards.
\<close>

definition TradingEngine_add_order ::
  "string \<Rightarrow> int \<Rightarrow> int \<Rightarrow> int \<Rightarrow> TradingEngine
     \<Rightarrow> (py_error + py_value) \<times> Trade list \<times> TradingEngine" where
  "TradingEngine_add_order otype ticker_index qty prc e =
     (let (new_id, counter') = increment (order_id_counter e);
          order = \<lparr>order_type = otype, ticker = ''STOCK'' @ py_str ticker_index,
                   quantity = qty, price = prc, order_id = new_id\<rparr>;
          e1 = e\<lparr>order_id_counter := counter'\<rparr>
      in case py_index (order_books e1) (ticker_index - 1) of
           Inl err \<Rightarrow> (Inl err, [], e1)
         | Inr k \<Rightarrow>
             (let (out, ob') = OrderBook_add_order order (order_books e1 ! k)
              in (Inr PyNone, out, e1\<lparr>order_books := (order_books e1)[k := ob']\<rparr>)))"

section \<open>Notions the properties are stated with\<close>

text \<open>Prices from head to tail: never rising (Buy side), never falling (Sell side).\<close>

definition non_increasing :: "OrderList \<Rightarrow> bool" where
  "non_increasing xs = sorted_wrt (\<lambda>a b. price a \<ge> price b) xs"

definition non_decreasing :: "OrderList \<Rightarrow> bool" where
  "non_decreasing xs = sorted_wrt (\<lambda>a b. price a \<le> price b) xs"

text \<open>Both queues hold an order and the Buy head's price reaches the Sell head's price.\<close>

definition crossed :: "OrderBook \<Rightarrow> bool" where
  "crossed ob =
     (buy_orders ob \<noteq> [] \<and> sell_orders ob \<noteq> []
      \<and> price (hd (buy_orders ob)) \<ge> price (hd (sell_orders ob)))"

text \<open>Both queues sorted and no cross: the state of a book between two calls.\<close>

definition book_ok :: "OrderBook \<Rightarrow> bool" where
  "book_ok ob = (non_increasing (buy_orders ob) \<and> non_decreasing (sell_orders ob) \<and> \<not> crossed ob)"

text \<open>A sequence of calls on one \<open>OrderList\<close>.\<close>

datatype queue_call = CallAdd Order | CallPop

fun apply_call :: "queue_call \<Rightarrow> OrderList \<Rightarrow> OrderList" where
  "apply_call (CallAdd new_order) xs = OrderList_add_order new_order xs"
| "apply_call CallPop xs = snd (OrderList_pop_head xs)"

definition run_calls :: "queue_call list \<Rightarrow> OrderList \<Rightarrow> OrderList" where
  "run_calls cs xs = fold apply_call cs xs"

definition adds_only :: "string \<Rightarrow> queue_call list \<Rightarrow> bool" where
  "adds_only side cs =
     list_all (\<lambda>c. case c of CallAdd new_order \<Rightarrow> order_type new_order = side | CallPop \<Rightarrow> True) cs"

text \<open>A sequence of orders submitted to one book, with everything printed on the way.\<close>

fun submit_all :: "Order list \<Rightarrow> OrderBook \<Rightarrow> Trade list \<times> OrderBook" where
  "submit_all [] ob = ([], ob)"
| "submit_all (new_order # rest) ob =
     (let (out, ob') = OrderBook_add_order new_order ob;
          (out', ob'') = submit_all rest ob'
      in (out @ out', ob''))"

definition total_quantity :: "Order list \<Rightarrow> int" where
  "total_quantity xs = sum_list (map quantity xs)"

definition resting_quantity :: "OrderBook \<Rightarrow> int" where
  "resting_quantity ob = total_quantity (buy_orders ob) + total_quantity (sell_orders ob)"

definition traded_total :: "Trade list \<Rightarrow> int" where
  "traded_total ts = sum_list (map trade_quantity ts)"

definition all_positive :: "OrderBook \<Rightarrow> bool" where
  "all_positive ob =
     (list_all (\<lambda>x. quantity x > 0) (buy_orders ob) \<and> list_all (\<lambda>x. quantity x > 0) (sell_orders ob))"

text \<open>
  The loop of \<open>match_orders\<close> allowed at most \<open>n\<close> passes through its body: \<open>None\<close> when
  the condition still holds after \<open>n\<close> passes.
\<close>

fun match_orders_bounded :: "nat \<Rightarrow> OrderBook \<Rightarrow> (Trade list \<times> OrderBook) option" where
  "match_orders_bounded 0 ob =
     (case match_iter ob of None \<Rightarrow> Some ([], ob) | Some _ \<Rightarrow> None)"
| "match_orders_bounded (Suc n) ob =
     (case match_iter ob of
        None \<Rightarrow> Some ([], ob)
      | Some (line, ob') \<Rightarrow>
          (case match_orders_bounded n ob' of
             None \<Rightarrow> None
           | Some (out, ob'') \<Rightarrow> Some (line # out, ob'')))"

text \<open>
  The matching loop as the specification words it (section 4.3, \<open>run_matching\<close>), on the
  two queues: stop when a head is absent or \<open>buy.price < sell.price\<close>; otherwise take
  \<open>traded_quantity = min(buy.quantity, sell.quantity)\<close>, emit one trade record, decrement
  both heads, drop each order whose quantity reached 0, and repeat.
\<close>

function run_matching :: "OrderList \<Rightarrow> OrderList \<Rightarrow> Trade list \<times> OrderList \<times> OrderList" where
  "run_matching [] ss = ([], [], ss)"
| "run_matching (b # bs) [] = ([], b # bs, [])"
| "run_matching (b # bs) (s # ss) =
     (if price b < price s then ([], b # bs, s # ss)
      else
        (let traded_quantity = min (quantity b) (quantity s);
             record = \<lparr>trade_ticker = ticker b, trade_price = price s,
                       trade_quantity = traded_quantity\<rparr>;
             b' = b\<lparr>quantity := quantity b - traded_quantity\<rparr>;
             s' = s\<lparr>quantity := quantity s - traded_quantity\<rparr>;
             buys = (if quantity b' = 0 then bs else b' # bs);
             sells = (if quantity s' = 0 then ss else s' # ss);
             (records, buys', sells') = run_matching buys sells
         in (record # records, buys', sells')))"
  by pat_completeness auto
termination
  by (relation "measure (\<lambda>(bs, ss). length bs + length ss)") (auto simp: min_def)

declare run_matching.simps(3) [simp del]

text \<open>Example data: two resting buys at 100 and a crossing sell, as in the scenarios.\<close>

definition buy1 :: Order where
  "buy1 = \<lparr>order_type = ''Buy'', ticker = ''STOCK1'', quantity = 5, price = 100, order_id = 1\<rparr>"

definition buy2 :: Order where
  "buy2 = \<lparr>order_type = ''Buy'', ticker = ''STOCK1'', quantity = 5, price = 100, order_id = 2\<rparr>"

definition sell3 :: Order where
  "sell3 = \<lparr>order_type = ''Sell'', ticker = ''STOCK1'', quantity = 7, price = 100, order_id = 3\<rparr>"

definition crossed_book :: OrderBook where
  "crossed_book = \<lparr>buy_orders = [buy1, buy2], sell_orders = [sell3]\<rparr>"

definition buy_hi :: Order where
  "buy_hi = \<lparr>order_type = ''Buy'', ticker = ''STOCK1'', quantity = 12, price = 105, order_id = 5\<rparr>"

definition sell4 :: Order where
  "sell4 = \<lparr>order_type = ''Sell'', ticker = ''STOCK1'', quantity = 1, price = 100, order_id = 4\<rparr>"

definition buy_a :: Order where
  "buy_a = \<lparr>order_type = ''Buy'', ticker = ''STOCK1'', quantity = 10, price = 100, order_id = 1\<rparr>"

definition sell_b :: Order where
  "sell_b = \<lparr>order_type = ''Sell'', ticker = ''STOCK1'', quantity = 10, price = 90, order_id = 2\<rparr>"

definition ask_book :: OrderBook where
  "ask_book = \<lparr>buy_orders = [], sell_orders = [sell_b, sell3]\<rparr>"

definition bid_book :: OrderBook where
  "bid_book = \<lparr>buy_orders = [buy_a], sell_orders = []\<rparr>"

definition buy_calls :: "queue_call list" where
  "buy_calls = [CallAdd buy1, CallAdd buy_hi, CallPop, CallAdd buy2, CallAdd buy_hi]"

definition sell_calls :: "queue_call list" where
  "sell_calls = [CallAdd sell3, CallAdd sell_b, CallPop, CallAdd sell4, CallAdd sell_b]"

definition fifo_e1 :: TradingEngine where
  "fifo_e1 = snd (snd (TradingEngine_add_order ''Buy'' 1 5 100 TradingEngine_init))"

definition fifo_e2 :: TradingEngine where
  "fifo_e2 = snd (snd (TradingEngine_add_order ''Buy'' 1 5 100 fifo_e1))"

lemmas example_defs = buy1_def buy2_def sell3_def sell4_def buy_hi_def buy_a_def sell_b_def
  ask_book_def bid_book_def crossed_book_def buy_calls_def sell_calls_def

section \<open>The matching loop\<close>

lemma match_iter_None_iff: "match_iter ob = None \<longleftrightarrow> \<not> crossed ob"
  by (auto simp: match_iter_def crossed_def Let_def split: list.splits)

lemma match_orders_None: "match_iter ob = None \<Longrightarrow> match_orders ob = ([], ob)"
  by (simp add: match_orders.simps [of ob])

lemma match_orders_Some:
  "match_iter ob = Some (line, ob') \<Longrightarrow>
   match_orders ob = (line # fst (match_orders ob'), snd (match_orders ob'))"
  by (simp add: match_orders.simps [of ob])

lemma match_iter_size:
  "match_iter ob = Some (line, ob') \<Longrightarrow> book_size ob' < book_size ob"
  by (auto simp: match_iter_def book_size_def OrderList_pop_head_def Let_def min_def
           split: list.splits if_splits)

lemma match_orders_induct [case_names step]:
  assumes "\<And>ob. (\<And>line ob'. match_iter ob = Some (line, ob') \<Longrightarrow> P ob') \<Longrightarrow> P ob"
  shows "P ob"
proof (induction ob rule: measure_induct_rule [of book_size])
  case (less ob)
  show ?case
    by (rule assms) (rule less, rule match_iter_size)
qed

lemma match_orders_stops: "match_iter (snd (match_orders ob)) = None"
proof (induction ob rule: match_orders_induct)
  case (step ob)
  show ?case
  proof (cases "match_iter ob")
    case None
    then show ?thesis by (simp add: match_orders_None)
  next
    case (Some p)
    obtain line ob' where "p = (line, ob')" by (cases p)
    with Some have it: "match_iter ob = Some (line, ob')" by simp
    from step [OF it] show ?thesis
      by (simp add: match_orders_Some [OF it])
  qed
qed

lemma match_orders_bounded_enough:
  "book_size ob \<le> n \<Longrightarrow> match_orders_bounded n ob = Some (match_orders ob)"
proof (induction n arbitrary: ob)
  case 0
  then have "match_iter ob = None"
    by (auto simp: book_size_def match_iter_def split: list.splits)
  then show ?case by (simp add: match_orders_None)
next
  case (Suc n)
  show ?case
  proof (cases "match_iter ob")
    case None
    then show ?thesis by (simp add: match_orders_None)
  next
    case (Some p)
    obtain line ob' where p: "p = (line, ob')" by (cases p)
    with Some have it: "match_iter ob = Some (line, ob')" by simp
    from match_iter_size [OF it] Suc.prems have "book_size ob' \<le> n" by simp
    from Suc.IH [OF this] it show ?thesis
      by (simp add: match_orders_Some [OF it] split: prod.splits)
  qed
qed

lemma match_iter_fills:
  assumes "match_iter ob = Some (line, ob')"
  shows "(\<exists>b. buy_orders ob = b # buy_orders ob' \<and> quantity b = trade_quantity line)
       \<or> (\<exists>s. sell_orders ob = s # sell_orders ob' \<and> quantity s = trade_quantity line)"
  using assms
  by (auto simp: match_iter_def OrderList_pop_head_def Let_def min_def
           split: list.splits if_splits)

lemma match_iter_positive:
  assumes "match_iter ob = Some (line, ob')" "all_positive ob"
  shows "all_positive ob'"
  using assms
  by (auto simp: match_iter_def all_positive_def OrderList_pop_head_def Let_def min_def
           split: list.splits if_splits)

lemma py_index_bound: "py_index xs i = Inr k \<Longrightarrow> k < length xs"
  by (auto simp: py_index_def Let_def split: if_splits)

section \<open>Insertion into a queue\<close>

lemma insert_after_buy:
  "order_type n = ''Buy'' \<Longrightarrow>
   insert_after n xs = takeWhile (\<lambda>x. price x \<ge> price n) xs @ n # dropWhile (\<lambda>x. price x \<ge> price n) xs"
  by (induction xs) auto

lemma insert_after_sell:
  "order_type n = ''Sell'' \<Longrightarrow>
   insert_after n xs = takeWhile (\<lambda>x. price x \<le> price n) xs @ n # dropWhile (\<lambda>x. price x \<le> price n) xs"
  by (induction xs) auto

lemma add_order_buy:
  "order_type n = ''Buy'' \<Longrightarrow>
   OrderList_add_order n xs = takeWhile (\<lambda>x. price x \<ge> price n) xs @ n # dropWhile (\<lambda>x. price x \<ge> price n) xs"
  by (cases xs) (auto simp: OrderList_add_order_def insert_after_buy)

lemma add_order_sell:
  "order_type n = ''Sell'' \<Longrightarrow>
   OrderList_add_order n xs = takeWhile (\<lambda>x. price x \<le> price n) xs @ n # dropWhile (\<lambda>x. price x \<le> price n) xs"
  by (cases xs) (auto simp: OrderList_add_order_def insert_after_sell)

lemma non_increasing_split:
  "non_increasing xs \<Longrightarrow>
   takeWhile (\<lambda>x. price x \<ge> p) xs = filter (\<lambda>x. price x \<ge> p) xs \<and>
   dropWhile (\<lambda>x. price x \<ge> p) xs = filter (\<lambda>x. price x < p) xs"
proof (induction xs)
  case Nil
  then show ?case by simp
next
  case (Cons a xs)
  then have IH: "takeWhile (\<lambda>x. price x \<ge> p) xs = filter (\<lambda>x. price x \<ge> p) xs"
    "dropWhile (\<lambda>x. price x \<ge> p) xs = filter (\<lambda>x. price x < p) xs"
    and le: "\<forall>x\<in>set xs. price x \<le> price a"
    by (auto simp: non_increasing_def)
  show ?case
  proof (cases "price a \<ge> p")
    case True
    then show ?thesis using IH by (simp add: not_le)
  next
    case False
    with le have "\<forall>x\<in>set xs. \<not> price x \<ge> p" by auto
    then have "filter (\<lambda>x. price x \<ge> p) xs = []" "filter (\<lambda>x. price x < p) xs = xs"
      by (auto simp: filter_empty_conv filter_id_conv)
    with False show ?thesis by simp
  qed
qed

lemma non_decreasing_split:
  "non_decreasing xs \<Longrightarrow>
   takeWhile (\<lambda>x. price x \<le> p) xs = filter (\<lambda>x. price x \<le> p) xs \<and>
   dropWhile (\<lambda>x. price x \<le> p) xs = filter (\<lambda>x. price x > p) xs"
proof (induction xs)
  case Nil
  then show ?case by simp
next
  case (Cons a xs)
  then have IH: "takeWhile (\<lambda>x. price x \<le> p) xs = filter (\<lambda>x. price x \<le> p) xs"
    "dropWhile (\<lambda>x. price x \<le> p) xs = filter (\<lambda>x. price x > p) xs"
    and le: "\<forall>x\<in>set xs. price a \<le> price x"
    by (auto simp: non_decreasing_def)
  show ?case
  proof (cases "price a \<le> p")
    case True
    then show ?thesis using IH by (simp add: not_le)
  next
    case False
    with le have "\<forall>x\<in>set xs. \<not> price x \<le> p" by auto
    then have "filter (\<lambda>x. price x \<le> p) xs = []" "filter (\<lambda>x. price x > p) xs = xs"
      by (auto simp: filter_empty_conv filter_id_conv)
    with False show ?thesis by simp
  qed
qed

lemma add_order_buy_sorted:
  assumes "order_type n = ''Buy''" "non_increasing xs"
  shows "non_increasing (OrderList_add_order n xs)"
proof -
  from non_increasing_split [OF assms(2), of "price n"] add_order_buy [OF assms(1), of xs]
  have eq: "OrderList_add_order n xs =
      filter (\<lambda>x. price x \<ge> price n) xs @ n # filter (\<lambda>x. price x < price n) xs"
    by simp
  from assms(2) show ?thesis
    unfolding eq non_increasing_def
    by (auto simp: sorted_wrt_append sorted_wrt_filter)
qed

lemma add_order_sell_sorted:
  assumes "order_type n = ''Sell''" "non_decreasing xs"
  shows "non_decreasing (OrderList_add_order n xs)"
proof -
  from non_decreasing_split [OF assms(2), of "price n"] add_order_sell [OF assms(1), of xs]
  have eq: "OrderList_add_order n xs =
      filter (\<lambda>x. price x \<le> price n) xs @ n # filter (\<lambda>x. price x > price n) xs"
    by simp
  from assms(2) show ?thesis
    unfolding eq non_decreasing_def
    by (auto simp: sorted_wrt_append sorted_wrt_filter)
qed

lemma pop_head_non_increasing: "non_increasing xs \<Longrightarrow> non_increasing (snd (OrderList_pop_head xs))"
  by (cases xs) (auto simp: OrderList_pop_head_def non_increasing_def)

lemma pop_head_non_decreasing: "non_decreasing xs \<Longrightarrow> non_decreasing (snd (OrderList_pop_head xs))"
  by (cases xs) (auto simp: OrderList_pop_head_def non_decreasing_def)

lemma run_calls_buy:
  "adds_only ''Buy'' cs \<Longrightarrow> non_increasing xs \<Longrightarrow> non_increasing (run_calls cs xs)"
proof (induction cs arbitrary: xs)
  case Nil
  then show ?case by (simp add: run_calls_def)
next
  case (Cons c cs)
  from Cons.prems have "non_increasing (apply_call c xs)"
    by (cases c) (auto simp: adds_only_def add_order_buy_sorted pop_head_non_increasing)
  moreover from Cons.prems have "adds_only ''Buy'' cs" by (simp add: adds_only_def)
  ultimately have "non_increasing (run_calls cs (apply_call c xs))" by (rule Cons.IH [rotated])
  then show ?case by (simp add: run_calls_def)
qed

lemma run_calls_sell:
  "adds_only ''Sell'' cs \<Longrightarrow> non_decreasing xs \<Longrightarrow> non_decreasing (run_calls cs xs)"
proof (induction cs arbitrary: xs)
  case Nil
  then show ?case by (simp add: run_calls_def)
next
  case (Cons c cs)
  from Cons.prems have "non_decreasing (apply_call c xs)"
    by (cases c) (auto simp: adds_only_def add_order_sell_sorted pop_head_non_decreasing)
  moreover from Cons.prems have "adds_only ''Sell'' cs" by (simp add: adds_only_def)
  ultimately have "non_decreasing (run_calls cs (apply_call c xs))" by (rule Cons.IH [rotated])
  then show ?case by (simp add: run_calls_def)
qed

lemma non_increasing_head: "non_increasing (h # xs) \<Longrightarrow> x \<in> set (h # xs) \<Longrightarrow> price x \<le> price h"
  by (auto simp: non_increasing_def)

lemma non_decreasing_head: "non_decreasing (h # xs) \<Longrightarrow> x \<in> set (h # xs) \<Longrightarrow> price h \<le> price x"
  by (auto simp: non_decreasing_def)

section \<open>Quantities through matching\<close>

lemma total_quantity_insert_after:
  "total_quantity (insert_after n xs) = quantity n + total_quantity xs"
  by (induction xs) (auto simp: total_quantity_def)

lemma total_quantity_add_order:
  "total_quantity (OrderList_add_order n xs) = quantity n + total_quantity xs"
  using total_quantity_insert_after [of n "tl xs"]
  by (cases xs) (auto simp: OrderList_add_order_def total_quantity_def)

lemma match_iter_conserves:
  "match_iter ob = Some (line, ob') \<Longrightarrow>
   resting_quantity ob' + 2 * trade_quantity line = resting_quantity ob"
  by (auto simp: match_iter_def resting_quantity_def total_quantity_def OrderList_pop_head_def
        Let_def min_def split: list.splits if_splits)

lemma match_orders_conserves:
  "resting_quantity (snd (match_orders ob)) + 2 * traded_total (fst (match_orders ob))
     = resting_quantity ob"
proof (induction ob rule: match_orders_induct)
  case (step ob)
  show ?case
  proof (cases "match_iter ob")
    case None
    then show ?thesis by (simp add: match_orders_None traded_total_def)
  next
    case (Some p)
    obtain line ob' where "p = (line, ob')" by (cases p)
    with Some have it: "match_iter ob = Some (line, ob')" by simp
    from step [OF it] match_iter_conserves [OF it] show ?thesis
      by (simp add: match_orders_Some [OF it] traded_total_def)
  qed
qed

lemma add_order_conserves:
  "resting_quantity (snd (OrderBook_add_order n ob)) + 2 * traded_total (fst (OrderBook_add_order n ob))
     = resting_quantity ob + quantity n"
  unfolding OrderBook_add_order_def match_orders_conserves
  by (simp add: resting_quantity_def total_quantity_add_order)

lemma traded_total_append: "traded_total (xs @ ys) = traded_total xs + traded_total ys"
  by (simp add: traded_total_def)

lemma submit_all_conserves:
  "resting_quantity (snd (submit_all os ob)) + 2 * traded_total (fst (submit_all os ob))
     = resting_quantity ob + total_quantity os"
proof (induction os arbitrary: ob)
  case Nil
  then show ?case by (simp add: traded_total_def total_quantity_def)
next
  case (Cons n os)
  from Cons.IH [of "snd (OrderBook_add_order n ob)"] add_order_conserves [of n ob]
  show ?case
    by (simp add: case_prod_beta traded_total_append total_quantity_def)
qed

lemma match_iter_Cons:
  "match_iter \<lparr>buy_orders = b # bs, sell_orders = s # ss\<rparr> =
     (if price s \<le> price b then
        Some (\<lparr>trade_ticker = ticker b, trade_price = price s,
                trade_quantity = min (quantity b) (quantity s)\<rparr>,
              \<lparr>buy_orders = (if quantity b \<le> quantity s then bs
                              else b\<lparr>quantity := quantity b - quantity s\<rparr> # bs),
                sell_orders = (if quantity s \<le> quantity b then ss
                               else s\<lparr>quantity := quantity s - quantity b\<rparr> # ss)\<rparr>)
      else None)"
  by (auto simp: match_iter_def OrderList_pop_head_def Let_def min_def)

lemma match_iter_uncrossed:
  "bs = [] \<or> ss = [] \<or> price (hd bs) < price (hd ss) \<Longrightarrow>
   match_iter \<lparr>buy_orders = bs, sell_orders = ss\<rparr> = None"
  by (cases bs; cases ss) (auto simp: match_iter_def)

lemma buy_aggressor:
  assumes "non_decreasing ss" "bs = [] \<or> ss = [] \<or> price (hd bs) < price (hd ss)"
  shows "map trade_price (fst (match_orders \<lparr>buy_orders = n # bs, sell_orders = ss\<rparr>)) =
         take (length (fst (match_orders \<lparr>buy_orders = n # bs, sell_orders = ss\<rparr>))) (map price ss)"
  using assms
proof (induction ss arbitrary: n)
  case Nil
  then show ?case by (simp add: match_orders_None match_iter_def)
next
  case (Cons s ss)
  let ?ob = "\<lparr>buy_orders = n # bs, sell_orders = s # ss\<rparr>"
  show ?case
  proof (cases "price s \<le> price n")
    case False
    then have "match_iter ?ob = None" by (simp add: match_iter_Cons)
    then show ?thesis by (simp add: match_orders_None)
  next
    case True
    from Cons.prems(1) have sorted: "non_decreasing ss" and hd_ss: "ss = [] \<or> price s \<le> price (hd ss)"
      by (cases ss; auto simp: non_decreasing_def)+
    from Cons.prems(2) have hd_bs: "bs = [] \<or> price (hd bs) < price s" by simp
    show ?thesis
    proof (cases "quantity n \<le> quantity s")
      case True
      let ?ss' = "if quantity s \<le> quantity n then ss else s\<lparr>quantity := quantity s - quantity n\<rparr> # ss"
      let ?line = "\<lparr>trade_ticker = ticker n, trade_price = price s,
                trade_quantity = min (quantity n) (quantity s)\<rparr>"
      from True \<open>price s \<le> price n\<close>
      have it: "match_iter ?ob = Some (?line, \<lparr>buy_orders = bs, sell_orders = ?ss'\<rparr>)"
        by (simp add: match_iter_Cons)
      from hd_bs hd_ss have "bs = [] \<or> ?ss' = [] \<or> price (hd bs) < price (hd ?ss')" by auto
      then have "match_iter \<lparr>buy_orders = bs, sell_orders = ?ss'\<rparr> = None"
        by (rule match_iter_uncrossed)
      then have "match_orders \<lparr>buy_orders = bs, sell_orders = ?ss'\<rparr> = ([], \<lparr>buy_orders = bs, sell_orders = ?ss'\<rparr>)"
        by (rule match_orders_None)
      then show ?thesis by (simp add: match_orders_Some [OF it])
    next
      case False
      let ?n' = "n\<lparr>quantity := quantity n - quantity s\<rparr>"
      let ?line = "\<lparr>trade_ticker = ticker n, trade_price = price s,
                trade_quantity = min (quantity n) (quantity s)\<rparr>"
      from False \<open>price s \<le> price n\<close>
      have it: "match_iter ?ob = Some (?line, \<lparr>buy_orders = ?n' # bs, sell_orders = ss\<rparr>)"
        by (simp add: match_iter_Cons)
      from hd_bs hd_ss have "bs = [] \<or> ss = [] \<or> price (hd bs) < price (hd ss)" by auto
      from Cons.IH [OF sorted this, of ?n'] show ?thesis
        by (simp add: match_orders_Some [OF it])
    qed
  qed
qed

lemma sell_aggressor:
  assumes "non_increasing bs" "bs = [] \<or> ss = [] \<or> price (hd bs) < price (hd ss)"
  shows "\<forall>t\<in>set (fst (match_orders \<lparr>buy_orders = bs, sell_orders = n # ss\<rparr>)).
           trade_price t = price n"
  using assms
proof (induction bs arbitrary: n)
  case Nil
  then show ?case by (simp add: match_orders_None match_iter_def)
next
  case (Cons b bs)
  let ?ob = "\<lparr>buy_orders = b # bs, sell_orders = n # ss\<rparr>"
  show ?case
  proof (cases "price n \<le> price b")
    case False
    then have "match_iter ?ob = None" by (simp add: match_iter_Cons)
    then show ?thesis by (simp add: match_orders_None)
  next
    case True
    from Cons.prems(1) have sorted: "non_increasing bs" and hd_bs: "bs = [] \<or> price (hd bs) \<le> price b"
      by (cases bs; auto simp: non_increasing_def)+
    from Cons.prems(2) have hd_ss: "ss = [] \<or> price b < price (hd ss)" by simp
    show ?thesis
    proof (cases "quantity n \<le> quantity b")
      case True
      let ?bs' = "if quantity b \<le> quantity n then bs else b\<lparr>quantity := quantity b - quantity n\<rparr> # bs"
      let ?line = "\<lparr>trade_ticker = ticker b, trade_price = price n,
                trade_quantity = min (quantity b) (quantity n)\<rparr>"
      from True \<open>price n \<le> price b\<close>
      have it: "match_iter ?ob = Some (?line, \<lparr>buy_orders = ?bs', sell_orders = ss\<rparr>)"
        by (simp add: match_iter_Cons)
      from hd_bs hd_ss have "?bs' = [] \<or> ss = [] \<or> price (hd ?bs') < price (hd ss)" by auto
      then have "match_iter \<lparr>buy_orders = ?bs', sell_orders = ss\<rparr> = None"
        by (rule match_iter_uncrossed)
      then have "match_orders \<lparr>buy_orders = ?bs', sell_orders = ss\<rparr> = ([], \<lparr>buy_orders = ?bs', sell_orders = ss\<rparr>)"
        by (rule match_orders_None)
      then show ?thesis by (simp add: match_orders_Some [OF it])
    next
      case False
      let ?n' = "n\<lparr>quantity := quantity n - quantity b\<rparr>"
      let ?line = "\<lparr>trade_ticker = ticker b, trade_price = price n,
                trade_quantity = min (quantity b) (quantity n)\<rparr>"
      from False \<open>price n \<le> price b\<close>
      have it: "match_iter ?ob = Some (?line, \<lparr>buy_orders = bs, sell_orders = ?n' # ss\<rparr>)"
        by (simp add: match_iter_Cons)
      from hd_bs hd_ss have "bs = [] \<or> ss = [] \<or> price (hd bs) < price (hd ss)" by auto
      from Cons.IH [OF sorted this, of ?n'] show ?thesis
        by (simp add: match_orders_Some [OF it])
    qed
  qed
qed

section \<open>Sorted books and the engine\<close>

lemma match_iter_sorted:
  assumes "match_iter ob = Some (line, ob')"
  shows "(non_increasing (buy_orders ob) \<longrightarrow> non_increasing (buy_orders ob'))
       \<and> (non_decreasing (sell_orders ob) \<longrightarrow> non_decreasing (sell_orders ob'))"
  using assms
  by (auto simp: match_iter_def OrderList_pop_head_def Let_def non_increasing_def
        non_decreasing_def split: list.splits if_splits)

lemma match_orders_sorted:
  "non_increasing (buy_orders ob) \<Longrightarrow> non_decreasing (sell_orders ob) \<Longrightarrow>
   non_increasing (buy_orders (snd (match_orders ob)))
   \<and> non_decreasing (sell_orders (snd (match_orders ob)))"
proof (induction ob rule: match_orders_induct)
  case (step ob)
  show ?case
  proof (cases "match_iter ob")
    case None
    with step.prems show ?thesis by (simp add: match_orders_None)
  next
    case (Some p)
    obtain line ob' where "p = (line, ob')" by (cases p)
    with Some have it: "match_iter ob = Some (line, ob')" by simp
    from match_iter_sorted [OF it] step.prems
    have "non_increasing (buy_orders ob')" "non_decreasing (sell_orders ob')" by auto
    from step.IH [OF it this] show ?thesis
      by (simp add: match_orders_Some [OF it])
  qed
qed

lemma book_ok_init: "book_ok OrderBook_init"
  by (simp add: book_ok_def OrderBook_init_def OrderList_init_def non_increasing_def
        non_decreasing_def crossed_def)

lemma book_ok_add_order:
  assumes "book_ok ob" "order_type n = ''Buy'' \<or> order_type n = ''Sell''"
  shows "book_ok (snd (OrderBook_add_order n ob))"
proof -
  let ?ob1 = "if order_type n = ''Buy''
        then ob\<lparr>buy_orders := OrderList_add_order n (buy_orders ob)\<rparr>
        else ob\<lparr>sell_orders := OrderList_add_order n (sell_orders ob)\<rparr>"
  from assms have "non_increasing (buy_orders ?ob1)" "non_decreasing (sell_orders ?ob1)"
    by (auto simp: book_ok_def add_order_buy_sorted add_order_sell_sorted)
  from match_orders_sorted [OF this] match_orders_stops [of ?ob1]
  show ?thesis
    by (simp add: book_ok_def OrderBook_add_order_def match_iter_None_iff)
qed

lemma add_buy_prices:
  assumes "book_ok ob" "order_type n = ''Buy''"
  shows "map trade_price (fst (OrderBook_add_order n ob)) =
         take (length (fst (OrderBook_add_order n ob))) (map price (sell_orders ob))"
proof -
  let ?bs = "buy_orders ob" and ?ss = "sell_orders ob"
  from assms(1) have sorted: "non_decreasing ?ss"
    and heads: "?bs = [] \<or> ?ss = [] \<or> price (hd ?bs) < price (hd ?ss)"
    by (auto simp: book_ok_def crossed_def)
  have add: "OrderBook_add_order n ob =
      match_orders \<lparr>buy_orders = OrderList_add_order n ?bs, sell_orders = ?ss\<rparr>"
    using assms(2) by (cases ob) (simp add: OrderBook_add_order_def)
  show ?thesis
  proof (cases "?bs = [] \<or> price n > price (hd ?bs)")
    case True
    with assms(2) have "OrderList_add_order n ?bs = n # ?bs"
      by (cases ?bs) (auto simp: OrderList_add_order_def)
    with buy_aggressor [OF sorted heads, of n] show ?thesis by (simp add: add)
  next
    case False
    then obtain h rest where bs: "?bs = h # rest" and le: "price n \<le> price h"
      by (cases ?bs) auto
    with assms(2) have "OrderList_add_order n ?bs = h # insert_after n rest"
      by (simp add: OrderList_add_order_def)
    moreover from heads bs
    have "match_iter \<lparr>buy_orders = h # insert_after n rest, sell_orders = ?ss\<rparr> = None"
      by (intro match_iter_uncrossed) auto
    ultimately show ?thesis by (simp add: add match_orders_None)
  qed
qed

lemma add_sell_prices:
  assumes "book_ok ob" "order_type n = ''Sell''"
  shows "\<forall>t\<in>set (fst (OrderBook_add_order n ob)). trade_price t = price n"
proof -
  let ?bs = "buy_orders ob" and ?ss = "sell_orders ob"
  from assms(1) have sorted: "non_increasing ?bs"
    and heads: "?bs = [] \<or> ?ss = [] \<or> price (hd ?bs) < price (hd ?ss)"
    by (auto simp: book_ok_def crossed_def)
  have add: "OrderBook_add_order n ob =
      match_orders \<lparr>buy_orders = ?bs, sell_orders = OrderList_add_order n ?ss\<rparr>"
    using assms(2) by (cases ob) (simp add: OrderBook_add_order_def)
  show ?thesis
  proof (cases "?ss = [] \<or> price n < price (hd ?ss)")
    case True
    with assms(2) have "OrderList_add_order n ?ss = n # ?ss"
      by (cases ?ss) (auto simp: OrderList_add_order_def)
    with sell_aggressor [OF sorted heads, of n] show ?thesis by (simp add: add)
  next
    case False
    then obtain h rest where ss: "?ss = h # rest" and le: "price h \<le> price n"
      by (cases ?ss) auto
    with assms(2) have "OrderList_add_order n ?ss = h # insert_after n rest"
      by (simp add: OrderList_add_order_def)
    moreover from heads ss
    have "match_iter \<lparr>buy_orders = ?bs, sell_orders = h # insert_after n rest\<rparr> = None"
      by (intro match_iter_uncrossed) auto
    ultimately show ?thesis by (simp add: add match_orders_None)
  qed
qed

lemma match_iter_price:
  "match_iter ob = Some (line, ob') \<Longrightarrow>
   \<exists>b bs s ss. buy_orders ob = b # bs \<and> sell_orders ob = s # ss \<and> trade_price line = price s"
  by (auto simp: match_iter_def Let_def split: list.splits if_splits)

lemma py_index_valid:
  "py_index xs i = (if - int (length xs) \<le> i \<and> i < int (length xs)
                    then Inr (nat (if i < 0 then i + int (length xs) else i))
                    else Inl IndexError)"
  by (auto simp: py_index_def Let_def)

lemma add_order_error:
  assumes "ticker_index > int (length (order_books e)) \<or> ticker_index \<le> - int (length (order_books e))"
  shows "TradingEngine_add_order otype ticker_index qty prc e =
     (Inl IndexError, [],
      e\<lparr>order_id_counter := \<lparr>counter_value = counter_value (order_id_counter e) + 1\<rparr>\<rparr>)"
  using assms
  by (auto simp: TradingEngine_add_order_def increment_def Let_def py_index_valid)

lemma add_order_ok:
  assumes "py_index (order_books e) (ticker_index - 1) = Inr k"
  shows "TradingEngine_add_order otype ticker_index qty prc e =
     (let order = \<lparr>order_type = otype, ticker = ''STOCK'' @ py_str ticker_index,
                   quantity = qty, price = prc,
                   order_id = counter_value (order_id_counter e) + 1\<rparr>
      in (Inr PyNone, fst (OrderBook_add_order order (order_books e ! k)),
          e\<lparr>order_id_counter := \<lparr>counter_value = counter_value (order_id_counter e) + 1\<rparr>,
            order_books := (order_books e)[k := snd (OrderBook_add_order order (order_books e ! k))]\<rparr>))"
  using assms
  by (simp add: TradingEngine_add_order_def increment_def Let_def case_prod_beta)

lemma py_index_in_range:
  assumes "- int (length xs) < i" "i \<le> int (length xs)"
  shows "py_index xs (i - 1) = Inr (nat (if i \<le> 0 then i - 1 + int (length xs) else i - 1))"
  using assms by (auto simp: py_index_valid)

section \<open>No cross is left behind\<close>

text \<open>
  C4. When \<open>OrderBook.add_order\<close> returns, the book is not crossed: it is not the case that
  both queues are non-empty with the Buy head's price greater than or equal to the Sell
  head's price. The same holds for the book that \<open>TradingEngine.add_order\<close> selected,
  whenever the index selects a book.
\<close>

theorem no_self_cross_after_add_order:
  "\<not> crossed (snd (OrderBook_add_order new_order ob)) \<and>
   (py_index (order_books e) (ticker_index - 1) = Inr k \<longrightarrow>
      \<not> crossed
          (order_books (snd (snd (TradingEngine_add_order otype ticker_index qty prc e))) ! k))"
proof
  show "\<not> crossed (snd (OrderBook_add_order new_order ob))"
    unfolding OrderBook_add_order_def match_iter_None_iff [symmetric]
    by (rule match_orders_stops)
  show "py_index (order_books e) (ticker_index - 1) = Inr k \<longrightarrow>
      \<not> crossed
          (order_books (snd (snd (TradingEngine_add_order otype ticker_index qty prc e))) ! k)"
  proof
    assume k: "py_index (order_books e) (ticker_index - 1) = Inr k"
    then have "k < length (order_books e)" by (rule py_index_bound)
    moreover have "\<not> crossed (snd (OrderBook_add_order x (order_books e ! k)))" for x
      unfolding OrderBook_add_order_def match_iter_None_iff [symmetric]
      by (rule match_orders_stops)
    ultimately show "\<not> crossed
          (order_books (snd (snd (TradingEngine_add_order otype ticker_index qty prc e))) ! k)"
      using k
      by (simp add: TradingEngine_add_order_def increment_def Let_def case_prod_beta)
  qed
qed

theorem no_self_cross_after_add_order_witness:
  "\<not> crossed (snd (OrderBook_add_order sell3 \<lparr>buy_orders = [buy1, buy2], sell_orders = []\<rparr>)) \<and>
   py_index (order_books TradingEngine_init) (1 - 1) = Inr 0 \<and>
   \<not> crossed
       (order_books (snd (snd (TradingEngine_add_order ''Buy'' 1 5 100 TradingEngine_init))) ! 0)"
proof -
  have k: "py_index (order_books TradingEngine_init) (1 - 1) = Inr 0"
    by (simp add: py_index_def TradingEngine_init_def)
  from no_self_cross_after_add_order
         [of sell3 "\<lparr>buy_orders = [buy1, buy2], sell_orders = []\<rparr>" TradingEngine_init 1 0
             "''Buy''" 5 100]
  show ?thesis using k by blast
qed

section \<open>The loop is the specified algorithm\<close>

text \<open>
  C6. \<open>match_orders\<close> computes what the specified steps compute: it stops when the Buy head
  or the Sell head is absent or the Buy head's price is strictly less than the Sell head's
  price; otherwise it takes \<open>traded_quantity = min(buy.quantity, sell.quantity)\<close>, emits
  one trade record, decrements both heads by \<open>traded_quantity\<close>, pops each order whose
  quantity reached 0, and repeats. The records emitted and the two queues left are those of
  \<open>run_matching\<close>.
\<close>

theorem match_orders_refines_run_matching:
  "match_orders ob =
     (case run_matching (buy_orders ob) (sell_orders ob) of
        (records, buys, sells) \<Rightarrow> (records, ob\<lparr>buy_orders := buys, sell_orders := sells\<rparr>))"
proof (induction ob rule: match_orders_induct)
  case (step ob)
  show ?case
  proof (cases "match_iter ob")
    case None
    then show ?thesis
      by (cases "buy_orders ob"; cases "sell_orders ob")
         (auto simp: match_orders_None match_iter_def run_matching.simps(3) Let_def split: if_splits)
  next
    case (Some p)
    obtain line ob' where p: "p = (line, ob')" by (cases p)
    with Some have it: "match_iter ob = Some (line, ob')" by simp
    from step [OF it] have IH: "match_orders ob' =
     (case run_matching (buy_orders ob') (sell_orders ob') of
        (records, buys, sells) \<Rightarrow> (records, ob'\<lparr>buy_orders := buys, sell_orders := sells\<rparr>))" .
    from it obtain b bs s ss where bs: "buy_orders ob = b # bs" and ss: "sell_orders ob = s # ss"
      and pr: "price b \<ge> price s"
      by (auto simp: match_iter_def split: list.splits if_splits)
    show ?thesis
      using it IH bs ss pr
      by (auto simp: match_orders_Some [OF it] match_iter_def run_matching.simps(3) Let_def
            OrderList_pop_head_def split: prod.splits if_splits)
  qed
qed

section \<open>Termination of the matching loop\<close>

text \<open>
  C9. On a book whose resting orders all have a positive remaining quantity, a pass through
  the body of the loop of \<open>match_orders\<close> removes from the head of a queue at least one
  order, filled by exactly the traded quantity, and leaves a smaller book whose orders are
  again all positive; hence the loop ends: allowed as many passes as the book has orders, it
  returns the result of \<open>match_orders\<close>.
\<close>

theorem match_orders_terminates:
  assumes "all_positive ob"
  shows "(\<forall>line ob'. match_iter ob = Some (line, ob') \<longrightarrow>
            ((\<exists>b. buy_orders ob = b # buy_orders ob' \<and> quantity b = trade_quantity line)
             \<or> (\<exists>s. sell_orders ob = s # sell_orders ob' \<and> quantity s = trade_quantity line))
            \<and> book_size ob' < book_size ob \<and> all_positive ob')
         \<and> match_orders_bounded (book_size ob) ob = Some (match_orders ob)"
proof (intro conjI allI impI)
  fix line ob'
  assume it: "match_iter ob = Some (line, ob')"
  from match_iter_fills [OF it]
  show "(\<exists>b. buy_orders ob = b # buy_orders ob' \<and> quantity b = trade_quantity line)
        \<or> (\<exists>s. sell_orders ob = s # sell_orders ob' \<and> quantity s = trade_quantity line)" .
  from it show "book_size ob' < book_size ob" by (rule match_iter_size)
  from it assms show "all_positive ob'" by (rule match_iter_positive)
next
  show "match_orders_bounded (book_size ob) ob = Some (match_orders ob)"
    by (rule match_orders_bounded_enough) simp
qed

theorem match_orders_terminates_witness:
  "all_positive crossed_book \<and>
   match_iter crossed_book =
     Some (\<lparr>trade_ticker = ''STOCK1'', trade_price = 100, trade_quantity = 5\<rparr>,
           \<lparr>buy_orders = [buy2], sell_orders = [sell3\<lparr>quantity := 2\<rparr>]\<rparr>) \<and>
   buy_orders crossed_book = buy1 # [buy2] \<and> quantity buy1 = 5 \<and>
   book_size \<lparr>buy_orders = [buy2], sell_orders = [sell3\<lparr>quantity := 2\<rparr>]\<rparr>
     < book_size crossed_book \<and>
   all_positive \<lparr>buy_orders = [buy2], sell_orders = [sell3\<lparr>quantity := 2\<rparr>]\<rparr> \<and>
   match_orders_bounded (book_size crossed_book) crossed_book = Some (match_orders crossed_book)"
proof -
  have p: "all_positive crossed_book"
    by (simp add: all_positive_def crossed_book_def buy1_def buy2_def sell3_def)
  have it: "match_iter crossed_book =
     Some (\<lparr>trade_ticker = ''STOCK1'', trade_price = 100, trade_quantity = 5\<rparr>,
           \<lparr>buy_orders = [buy2], sell_orders = [sell3\<lparr>quantity := 2\<rparr>]\<rparr>)"
    by (simp add: match_iter_def crossed_book_def buy1_def buy2_def sell3_def
          OrderList_pop_head_def Let_def)
  have q: "buy_orders crossed_book = buy1 # [buy2] \<and> quantity buy1 = 5"
    by (simp add: crossed_book_def buy1_def)
  from match_orders_terminates [OF p] it p q show ?thesis by blast
qed

section \<open>The sort invariant of a queue\<close>

text \<open>
  C1. In every state reached from the empty list by a sequence of \<open>OrderList.add_order\<close>
  and \<open>pop_head\<close> calls, a queue that received Buy orders only has prices that never rise
  from head to tail, and a queue that received Sell orders only has prices that never fall;
  so the head, when present, is the best-priced order of its side.
\<close>

theorem sort_invariant:
  "(adds_only ''Buy'' cs \<longrightarrow>
      non_increasing (run_calls cs OrderList_init) \<and>
      (\<forall>x\<in>set (run_calls cs OrderList_init).
         price x \<le> price (hd (run_calls cs OrderList_init)))) \<and>
   (adds_only ''Sell'' cs \<longrightarrow>
      non_decreasing (run_calls cs OrderList_init) \<and>
      (\<forall>x\<in>set (run_calls cs OrderList_init).
         price (hd (run_calls cs OrderList_init)) \<le> price x))"
proof (intro conjI impI)
  have init: "non_increasing OrderList_init" "non_decreasing OrderList_init"
    by (simp_all add: OrderList_init_def non_increasing_def non_decreasing_def)
  {
    assume "adds_only ''Buy'' cs"
    then show s: "non_increasing (run_calls cs OrderList_init)"
      using init(1) by (rule run_calls_buy)
    show "\<forall>x\<in>set (run_calls cs OrderList_init).
         price x \<le> price (hd (run_calls cs OrderList_init))"
      using s non_increasing_head by (cases "run_calls cs OrderList_init") auto
  }
  {
    assume "adds_only ''Sell'' cs"
    then show s: "non_decreasing (run_calls cs OrderList_init)"
      using init(2) by (rule run_calls_sell)
    show "\<forall>x\<in>set (run_calls cs OrderList_init).
         price (hd (run_calls cs OrderList_init)) \<le> price x"
      using s non_decreasing_head by (cases "run_calls cs OrderList_init") auto
  }
qed

theorem sort_invariant_witness:
  "adds_only ''Buy'' buy_calls \<and>
   run_calls buy_calls OrderList_init = [buy_hi, buy1, buy2] \<and>
   non_increasing (run_calls buy_calls OrderList_init) \<and>
   list_all (\<lambda>x. price x \<le> price (hd (run_calls buy_calls OrderList_init)))
     (run_calls buy_calls OrderList_init) \<and>
   adds_only ''Sell'' sell_calls \<and>
   run_calls sell_calls OrderList_init = [sell_b, sell3, sell4] \<and>
   non_decreasing (run_calls sell_calls OrderList_init) \<and>
   list_all (\<lambda>x. price (hd (run_calls sell_calls OrderList_init)) \<le> price x)
     (run_calls sell_calls OrderList_init)"
proof -
  have b: "adds_only ''Buy'' buy_calls"
    by (simp add: adds_only_def example_defs)
  have s: "adds_only ''Sell'' sell_calls"
    by (simp add: adds_only_def example_defs)
  have rb: "run_calls buy_calls OrderList_init = [buy_hi, buy1, buy2]"
    by (simp add: run_calls_def OrderList_init_def OrderList_add_order_def
          OrderList_pop_head_def example_defs)
  have rs: "run_calls sell_calls OrderList_init = [sell_b, sell3, sell4]"
    by (simp add: run_calls_def OrderList_init_def OrderList_add_order_def
          OrderList_pop_head_def example_defs)
  from sort_invariant [of buy_calls] sort_invariant [of sell_calls] b s rb rs
  show ?thesis
    unfolding list_all_iff by blast
qed

section \<open>FIFO among equal prices\<close>

text \<open>
  C7. \<open>OrderList.add_order\<close> puts a new order of a side into that side's sorted queue after
  every existing node whose price is at least as good, so after all nodes of equal price,
  and before every node of strictly worse price. Scenario on the engine: after
  Buy(qty 5, price 100) and Buy(qty 5, price 100) on instrument 1, the book holds the first
  order ahead of the second; Sell(qty 7, price 100) then prints two trades at price 100, of
  quantity 5 (the whole first buy) and 2, and leaves the second buy resting with quantity 3.
\<close>

theorem fifo_tie_break:
  "(order_type n = ''Buy'' \<and> non_increasing xs \<longrightarrow>
      OrderList_add_order n xs =
        filter (\<lambda>x. price x \<ge> price n) xs @ n # filter (\<lambda>x. price x < price n) xs) \<and>
   (order_type n = ''Sell'' \<and> non_decreasing xs \<longrightarrow>
      OrderList_add_order n xs =
        filter (\<lambda>x. price x \<le> price n) xs @ n # filter (\<lambda>x. price x > price n) xs) \<and>
   order_books fifo_e2 ! 0 = \<lparr>buy_orders = [buy1, buy2], sell_orders = []\<rparr> \<and>
   TradingEngine_add_order ''Sell'' 1 7 100 fifo_e2 =
     (Inr PyNone,
      [\<lparr>trade_ticker = ''STOCK1'', trade_price = 100, trade_quantity = 5\<rparr>,
       \<lparr>trade_ticker = ''STOCK1'', trade_price = 100, trade_quantity = 2\<rparr>],
      fifo_e2\<lparr>order_books := (order_books fifo_e2)
                 [0 := \<lparr>buy_orders = [buy2\<lparr>quantity := 3\<rparr>], sell_orders = []\<rparr>],
              order_id_counter := \<lparr>counter_value = 3\<rparr>\<rparr>)"
proof (intro conjI impI)
  assume "order_type n = ''Buy'' \<and> non_increasing xs"
  then show "OrderList_add_order n xs =
        filter (\<lambda>x. price x \<ge> price n) xs @ n # filter (\<lambda>x. price x < price n) xs"
    using non_increasing_split [of xs "price n"] add_order_buy [of n xs] by simp
next
  assume "order_type n = ''Sell'' \<and> non_decreasing xs"
  then show "OrderList_add_order n xs =
        filter (\<lambda>x. price x \<le> price n) xs @ n # filter (\<lambda>x. price x > price n) xs"
    using non_decreasing_split [of xs "price n"] add_order_sell [of n xs] by simp
next
  show "order_books fifo_e2 ! 0 = \<lparr>buy_orders = [buy1, buy2], sell_orders = []\<rparr>"
    by code_simp
next
  show "TradingEngine_add_order ''Sell'' 1 7 100 fifo_e2 =
     (Inr PyNone,
      [\<lparr>trade_ticker = ''STOCK1'', trade_price = 100, trade_quantity = 5\<rparr>,
       \<lparr>trade_ticker = ''STOCK1'', trade_price = 100, trade_quantity = 2\<rparr>],
      fifo_e2\<lparr>order_books := (order_books fifo_e2)
                 [0 := \<lparr>buy_orders = [buy2\<lparr>quantity := 3\<rparr>], sell_orders = []\<rparr>],
              order_id_counter := \<lparr>counter_value = 3\<rparr>\<rparr>)"
    by code_simp
qed

theorem fifo_tie_break_witness:
  "order_type buy2 = ''Buy'' \<and> non_increasing [buy_hi, buy1] \<and>
   OrderList_add_order buy2 [buy_hi, buy1] = [buy_hi, buy1, buy2] \<and>
   order_type sell4 = ''Sell'' \<and> non_decreasing [sell_b, sell3] \<and>
   OrderList_add_order sell4 [sell_b, sell3] = [sell_b, sell3, sell4]"
proof -
  have b: "order_type buy2 = ''Buy'' \<and> non_increasing [buy_hi, buy1]"
    by (simp add: non_increasing_def example_defs)
  have s: "order_type sell4 = ''Sell'' \<and> non_decreasing [sell_b, sell3]"
    by (simp add: non_decreasing_def example_defs)
  have fb: "filter (\<lambda>x. price x \<ge> price buy2) [buy_hi, buy1] @ buy2 #
            filter (\<lambda>x. price x < price buy2) [buy_hi, buy1] = [buy_hi, buy1, buy2]"
    by (simp add: example_defs)
  have fs: "filter (\<lambda>x. price x \<le> price sell4) [sell_b, sell3] @ sell4 #
            filter (\<lambda>x. price x > price sell4) [sell_b, sell3] = [sell_b, sell3, sell4]"
    by (simp add: example_defs)
  from fifo_tie_break [of buy2 "[buy_hi, buy1]"] b fb
  have 1: "OrderList_add_order buy2 [buy_hi, buy1] = [buy_hi, buy1, buy2]" by metis
  from fifo_tie_break [of sell4 "[sell_b, sell3]"] s fs
  have 2: "OrderList_add_order sell4 [sell_b, sell3] = [sell_b, sell3, sell4]" by metis
  from 1 2 b s show ?thesis by blast
qed

section \<open>Conservation of quantity\<close>

text \<open>
  C5, as stated, fails: after Buy(qty 10, price 100) and Sell(qty 10, price 90) both queues
  are empty and one trade of quantity 10 was printed, so resting plus traded quantity is 10,
  while 20 were submitted.
\<close>

theorem conservation_counterexample:
  "resting_quantity (snd (submit_all [buy_a, sell_b] OrderBook_init))
     + traded_total (fst (submit_all [buy_a, sell_b] OrderBook_init)) = 10
   \<and> total_quantity [buy_a, sell_b] = 20"
  by code_simp

text \<open>
  C5, amended. A trade takes its quantity from a buy order and from a sell order: for every
  sequence of orders submitted to an empty book, the remaining quantities resting in the two
  queues plus twice the quantities printed in trades equal the total quantity submitted.
\<close>

theorem conservation_both_sides:
  "resting_quantity (snd (submit_all os OrderBook_init))
     + 2 * traded_total (fst (submit_all os OrderBook_init)) = total_quantity os"
proof -
  have "resting_quantity OrderBook_init = 0"
    by (simp add: resting_quantity_def total_quantity_def OrderBook_init_def OrderList_init_def)
  with submit_all_conserves [of os OrderBook_init] show ?thesis by simp
qed

section \<open>The price of a trade\<close>

text \<open>
  C2, as stated, fails when the aggressor is a Sell: with Buy(qty 10, price 100) resting,
  Sell(qty 10, price 90) trades at 90, the price of the incoming order, not at the resting
  order's 100.
\<close>

theorem trade_price_counterexample:
  "snd (OrderBook_add_order buy_a OrderBook_init) = \<lparr>buy_orders = [buy_a], sell_orders = []\<rparr>
   \<and> price buy_a = 100
   \<and> fst (OrderBook_add_order sell_b (snd (OrderBook_add_order buy_a OrderBook_init)))
       = [\<lparr>trade_ticker = ''STOCK1'', trade_price = 90, trade_quantity = 10\<rparr>]"
  by code_simp

text \<open>
  C2, amended. Every trade printed by \<open>match_orders\<close> executes at the price of the order at
  the head of the Sell queue at that moment. On a book whose queues are sorted and do not
  cross: when the aggressor is a Buy, the trades execute, in order, at the prices of the
  resting sell orders from the head on (the resting order's price); when the aggressor is a
  Sell, every trade executes at the aggressor's own price.
\<close>

theorem trade_price_is_sell_price:
  "(\<forall>line ob'. match_iter ob = Some (line, ob') \<longrightarrow>
      (\<exists>s ss. sell_orders ob = s # ss \<and> trade_price line = price s)) \<and>
   (book_ok ob \<and> order_type n = ''Buy'' \<longrightarrow>
      map trade_price (fst (OrderBook_add_order n ob)) =
        take (length (fst (OrderBook_add_order n ob))) (map price (sell_orders ob))) \<and>
   (book_ok ob \<and> order_type n = ''Sell'' \<longrightarrow>
      (\<forall>t\<in>set (fst (OrderBook_add_order n ob)). trade_price t = price n))"
proof (intro conjI allI impI)
  fix line ob'
  assume "match_iter ob = Some (line, ob')"
  from match_iter_price [OF this]
  show "\<exists>s ss. sell_orders ob = s # ss \<and> trade_price line = price s" by blast
next
  assume "book_ok ob \<and> order_type n = ''Buy''"
  then show "map trade_price (fst (OrderBook_add_order n ob)) =
        take (length (fst (OrderBook_add_order n ob))) (map price (sell_orders ob))"
    using add_buy_prices [of ob n] by blast
next
  assume "book_ok ob \<and> order_type n = ''Sell''"
  then show "\<forall>t\<in>set (fst (OrderBook_add_order n ob)). trade_price t = price n"
    using add_sell_prices [of ob n] by blast
qed

theorem trade_price_is_sell_price_witness:
  "match_iter crossed_book =
     Some (\<lparr>trade_ticker = ''STOCK1'', trade_price = 100, trade_quantity = 5\<rparr>,
           \<lparr>buy_orders = [buy2], sell_orders = [sell3\<lparr>quantity := 2\<rparr>]\<rparr>) \<and>
   (\<exists>s ss. sell_orders crossed_book = s # ss \<and> (100::int) = price s) \<and>
   book_ok ask_book \<and> order_type buy_hi = ''Buy'' \<and>
   map trade_price (fst (OrderBook_add_order buy_hi ask_book)) = [90, 100] \<and>
   take (length (fst (OrderBook_add_order buy_hi ask_book))) (map price (sell_orders ask_book))
     = [90, 100] \<and>
   book_ok bid_book \<and> order_type sell_b = ''Sell'' \<and> price sell_b = 90 \<and> price buy_a = 100 \<and>
   list_all (\<lambda>t. trade_price t = price sell_b) (fst (OrderBook_add_order sell_b bid_book)) \<and>
   fst (OrderBook_add_order sell_b bid_book)
     = [\<lparr>trade_ticker = ''STOCK1'', trade_price = 90, trade_quantity = 10\<rparr>]"
proof -
  have it: "match_iter crossed_book =
     Some (\<lparr>trade_ticker = ''STOCK1'', trade_price = 100, trade_quantity = 5\<rparr>,
           \<lparr>buy_orders = [buy2], sell_orders = [sell3\<lparr>quantity := 2\<rparr>]\<rparr>)"
    by (simp add: match_iter_def OrderList_pop_head_def Let_def example_defs)
  have okb: "book_ok ask_book \<and> order_type buy_hi = ''Buy''"
    by (simp add: book_ok_def crossed_def non_increasing_def non_decreasing_def example_defs)
  have oks: "book_ok bid_book \<and> order_type sell_b = ''Sell'' \<and> price sell_b = 90 \<and> price buy_a = 100"
    by (simp add: book_ok_def crossed_def non_increasing_def non_decreasing_def example_defs)
  have eb: "map trade_price (fst (OrderBook_add_order buy_hi ask_book)) = [90, 100]"
    by code_simp
  have es: "fst (OrderBook_add_order sell_b bid_book)
     = [\<lparr>trade_ticker = ''STOCK1'', trade_price = 90, trade_quantity = 10\<rparr>]"
    by code_simp
  from trade_price_is_sell_price [of crossed_book] it
  have 1: "\<exists>s ss. sell_orders crossed_book = s # ss \<and> (100::int) = price s" by fastforce
  from trade_price_is_sell_price [of ask_book buy_hi] okb eb
  have 2: "take (length (fst (OrderBook_add_order buy_hi ask_book))) (map price (sell_orders ask_book))
     = [90, 100]" by metis
  from trade_price_is_sell_price [of bid_book sell_b] oks
  have 3: "list_all (\<lambda>t. trade_price t = price sell_b) (fst (OrderBook_add_order sell_b bid_book))"
    unfolding list_all_iff by blast
  from it 1 okb eb 2 oks 3 es show ?thesis by blast
qed

section \<open>What the engine checks and returns\<close>

text \<open>
  C3, as stated, fails: \<open>TradingEngine.add_order\<close> validates nothing. A call with quantity
  0 and price -5 is accepted and the order is put into the book; a call with index 1025
  raises \<open>IndexError\<close> only after the sequence counter went from 0 to 1.
\<close>

theorem no_validation_counterexample:
  "TradingEngine_add_order ''Buy'' 1 0 (- 5) TradingEngine_init =
     (Inr PyNone, [],
      TradingEngine_init
        \<lparr>order_books := (order_books TradingEngine_init)
           [0 := \<lparr>buy_orders = [\<lparr>order_type = ''Buy'', ticker = ''STOCK1'', quantity = 0,
                                  price = - 5, order_id = 1\<rparr>],
                   sell_orders = []\<rparr>],
         order_id_counter := \<lparr>counter_value = 1\<rparr>\<rparr>)
   \<and> TradingEngine_add_order ''Buy'' 1025 5 100 TradingEngine_init =
     (Inl IndexError, [], TradingEngine_init\<lparr>order_id_counter := \<lparr>counter_value = 1\<rparr>\<rparr>)
   \<and> order_id_counter TradingEngine_init = \<lparr>counter_value = 0\<rparr>"
  by code_simp

text \<open>
  C3, amended. With N order books, a call to \<open>TradingEngine.add_order\<close> whose index is
  greater than N or at most -N raises \<open>IndexError\<close>, prints nothing and changes no order
  book, but the sequence counter has been incremented; every other call, whatever its
  quantity and price, raises no error.
\<close>

theorem add_order_rejects_by_index_only:
  "(ticker_index > int (length (order_books e)) \<or> ticker_index \<le> - int (length (order_books e))
      \<longrightarrow> TradingEngine_add_order otype ticker_index qty prc e =
            (Inl IndexError, [],
             e\<lparr>order_id_counter := \<lparr>counter_value = counter_value (order_id_counter e) + 1\<rparr>\<rparr>)) \<and>
   (- int (length (order_books e)) < ticker_index \<and> ticker_index \<le> int (length (order_books e))
      \<longrightarrow> fst (TradingEngine_add_order otype ticker_index qty prc e) = Inr PyNone)"
proof (intro conjI impI)
  assume "ticker_index > int (length (order_books e)) \<or> ticker_index \<le> - int (length (order_books e))"
  then show "TradingEngine_add_order otype ticker_index qty prc e =
            (Inl IndexError, [],
             e\<lparr>order_id_counter := \<lparr>counter_value = counter_value (order_id_counter e) + 1\<rparr>\<rparr>)"
    by (rule add_order_error)
next
  assume "- int (length (order_books e)) < ticker_index \<and> ticker_index \<le> int (length (order_books e))"
  then have "\<exists>k. py_index (order_books e) (ticker_index - 1) = Inr k"
    by (simp add: py_index_in_range)
  then obtain k where "py_index (order_books e) (ticker_index - 1) = Inr k" ..
  from add_order_ok [OF this, of otype qty prc]
  show "fst (TradingEngine_add_order otype ticker_index qty prc e) = Inr PyNone"
    by (simp add: Let_def)
qed

theorem add_order_rejects_by_index_only_witness:
  "(1025 > int (length (order_books TradingEngine_init))
      \<or> (1025::int) \<le> - int (length (order_books TradingEngine_init))) \<and>
   TradingEngine_add_order ''Buy'' 1025 5 100 TradingEngine_init =
     (Inl IndexError, [],
      TradingEngine_init\<lparr>order_id_counter :=
         \<lparr>counter_value = counter_value (order_id_counter TradingEngine_init) + 1\<rparr>\<rparr>) \<and>
   - int (length (order_books TradingEngine_init)) < - 3 \<and>
   - 3 \<le> int (length (order_books TradingEngine_init)) \<and>
   fst (TradingEngine_add_order ''Sell'' (- 3) 0 (- 1) TradingEngine_init) = Inr PyNone"
proof -
  have len: "int (length (order_books TradingEngine_init)) = 1024"
    by (simp add: TradingEngine_init_def)
  from add_order_rejects_by_index_only
         [where ticker_index = 1025 and e = TradingEngine_init and otype = "''Buy''"
            and qty = 5 and prc = 100]
       add_order_rejects_by_index_only
         [where ticker_index = "- 3" and e = TradingEngine_init and otype = "''Sell''"
            and qty = 0 and prc = "- 1"]
  show ?thesis unfolding len by simp
qed

text \<open>
  C8, as stated, fails: \<open>TradingEngine.add_order\<close> has no \<open>return\<close> statement. The first
  call on a new engine gives its order the id 1 and returns \<open>None\<close>, not 1.
\<close>

theorem returns_order_id_counterexample:
  "fst (TradingEngine_add_order ''Buy'' 1 5 100 TradingEngine_init) = Inr PyNone
   \<and> map order_id
        (buy_orders (order_books (snd (snd (TradingEngine_add_order ''Buy'' 1 5 100
                                            TradingEngine_init))) ! 0)) = [1]
   \<and> (Inr PyNone :: py_error + py_value) \<noteq> Inr (PyInt 1)"
  by code_simp

text \<open>
  C8, amended. A call to \<open>TradingEngine.add_order\<close> never returns an integer: when its
  index selects a book it returns \<open>None\<close>; the id taken from the counter (its value plus
  one, which the counter then holds) is stored as the \<open>order_id\<close> of the order handed to
  that book's \<open>add_order\<close>.
\<close>

theorem add_order_returns_none:
  "(\<forall>i. fst (TradingEngine_add_order otype ticker_index qty prc e) \<noteq> Inr (PyInt i)) \<and>
   (py_index (order_books e) (ticker_index - 1) = Inr k \<longrightarrow>
      TradingEngine_add_order otype ticker_index qty prc e =
        (let order = \<lparr>order_type = otype, ticker = ''STOCK'' @ py_str ticker_index,
                      quantity = qty, price = prc,
                      order_id = counter_value (order_id_counter e) + 1\<rparr>
         in (Inr PyNone, fst (OrderBook_add_order order (order_books e ! k)),
             e\<lparr>order_id_counter := \<lparr>counter_value = counter_value (order_id_counter e) + 1\<rparr>,
               order_books :=
                 (order_books e)[k := snd (OrderBook_add_order order (order_books e ! k))]\<rparr>)))"
proof (intro conjI allI impI)
  fix i
  show "fst (TradingEngine_add_order otype ticker_index qty prc e) \<noteq> Inr (PyInt i)"
    by (simp add: TradingEngine_add_order_def increment_def Let_def case_prod_beta
          split: sum.splits)
next
  assume "py_index (order_books e) (ticker_index - 1) = Inr k"
  then show "TradingEngine_add_order otype ticker_index qty prc e =
        (let order = \<lparr>order_type = otype, ticker = ''STOCK'' @ py_str ticker_index,
                      quantity = qty, price = prc,
                      order_id = counter_value (order_id_counter e) + 1\<rparr>
         in (Inr PyNone, fst (OrderBook_add_order order (order_books e ! k)),
             e\<lparr>order_id_counter := \<lparr>counter_value = counter_value (order_id_counter e) + 1\<rparr>,
               order_books :=
                 (order_books e)[k := snd (OrderBook_add_order order (order_books e ! k))]\<rparr>))"
    by (rule add_order_ok)
qed

theorem add_order_returns_none_witness:
  "py_index (order_books fifo_e1) (1 - 1) = Inr 0 \<and>
   counter_value (order_id_counter fifo_e1) = 1 \<and>
   TradingEngine_add_order ''Buy'' 1 5 100 fifo_e1 =
     (Inr PyNone, [],
      fifo_e1\<lparr>order_id_counter := \<lparr>counter_value = 2\<rparr>,
              order_books := (order_books fifo_e1)
                 [0 := \<lparr>buy_orders = [buy1, buy2], sell_orders = []\<rparr>]\<rparr>)"
proof -
  have k: "py_index (order_books fifo_e1) (1 - 1) = Inr 0" by code_simp
  have c: "counter_value (order_id_counter fifo_e1) = 1" by code_simp
  have s: "py_str 1 = ''1''" by code_simp
  have b: "order_books fifo_e1 ! 0 = \<lparr>buy_orders = [buy1], sell_orders = []\<rparr>" by code_simp
  have a: "OrderBook_add_order buy2 \<lparr>buy_orders = [buy1], sell_orders = []\<rparr> =
      ([], \<lparr>buy_orders = [buy1, buy2], sell_orders = []\<rparr>)" by code_simp
  from add_order_returns_none
         [where otype = "''Buy''" and ticker_index = 1 and qty = 5 and prc = 100
            and e = fifo_e1 and k = 0] k
  have "TradingEngine_add_order ''Buy'' 1 5 100 fifo_e1 =
        (let order = \<lparr>order_type = ''Buy'', ticker = ''STOCK'' @ py_str 1,
                      quantity = 5, price = 100,
                      order_id = counter_value (order_id_counter fifo_e1) + 1\<rparr>
         in (Inr PyNone, fst (OrderBook_add_order order (order_books fifo_e1 ! 0)),
             fifo_e1\<lparr>order_id_counter := \<lparr>counter_value = counter_value (order_id_counter fifo_e1) + 1\<rparr>,
               order_books :=
                 (order_books fifo_e1)[0 := snd (OrderBook_add_order order (order_books fifo_e1 ! 0))]\<rparr>))"
    by blast
  then have "TradingEngine_add_order ''Buy'' 1 5 100 fifo_e1 =
     (Inr PyNone, [],
      fifo_e1\<lparr>order_id_counter := \<lparr>counter_value = 2\<rparr>,
              order_books := (order_books fifo_e1)
                 [0 := \<lparr>buy_orders = [buy1, buy2], sell_orders = []\<rparr>]\<rparr>)"
    using a by (simp add: c s b Let_def buy2_def [symmetric])
  with k c show ?thesis by blast
qed

section \<open>Index 0 at the public interface\<close>

text \<open>
  C10. On an engine of 1024 books, \<open>TradingEngine.add_order\<close> with \<open>ticker_index = 0\<close>
  raises no error: \<open>order_books[-1]\<close> is the book at position 1023, and the order, with
  ticker \<open>STOCK0\<close>, is handed to that book's \<open>add_order\<close>; the last book is the one
  changed.
\<close>

theorem ticker_index_zero_uses_last_book:
  assumes "length (order_books e) = 1024"
  shows "TradingEngine_add_order otype 0 qty prc e =
        (let order = \<lparr>order_type = otype, ticker = ''STOCK0'',
                      quantity = qty, price = prc,
                      order_id = counter_value (order_id_counter e) + 1\<rparr>
         in (Inr PyNone, fst (OrderBook_add_order order (order_books e ! 1023)),
             e\<lparr>order_id_counter := \<lparr>counter_value = counter_value (order_id_counter e) + 1\<rparr>,
               order_books :=
                 (order_books e)[1023 := snd (OrderBook_add_order order (order_books e ! 1023))]\<rparr>))"
proof -
  have s: "py_str 0 = ''0''" by code_simp
  from assms have "py_index (order_books e) (0 - 1) = Inr 1023"
    by (simp add: py_index_def)
  from add_order_ok [OF this, of otype qty prc] show ?thesis
    by (simp add: s)
qed

theorem ticker_index_zero_uses_last_book_witness:
  "length (order_books TradingEngine_init) = 1024 \<and>
   fst (TradingEngine_add_order ''Buy'' 0 5 100 TradingEngine_init) = Inr PyNone \<and>
   order_books (snd (snd (TradingEngine_add_order ''Buy'' 0 5 100 TradingEngine_init))) ! 1023 =
     \<lparr>buy_orders = [\<lparr>order_type = ''Buy'', ticker = ''STOCK0'', quantity = 5, price = 100,
                     order_id = 1\<rparr>],
      sell_orders = []\<rparr> \<and>
   order_books TradingEngine_init ! 1023 = \<lparr>buy_orders = [], sell_orders = []\<rparr>"
proof -
  have len: "length (order_books TradingEngine_init) = 1024"
    by (simp add: TradingEngine_init_def)
  have c: "counter_value (order_id_counter TradingEngine_init) = 0"
    by (simp add: TradingEngine_init_def AtomicCounter_init_def)
  have b: "order_books TradingEngine_init ! 1023 = \<lparr>buy_orders = [], sell_orders = []\<rparr>"
    by (simp add: TradingEngine_init_def OrderBook_init_def OrderList_init_def)
  have a: "OrderBook_add_order
             \<lparr>order_type = ''Buy'', ticker = ''STOCK0'', quantity = 5, price = 100, order_id = 1\<rparr>
             \<lparr>buy_orders = [], sell_orders = []\<rparr> =
      ([], \<lparr>buy_orders = [\<lparr>order_type = ''Buy'', ticker = ''STOCK0'', quantity = 5,
                             price = 100, order_id = 1\<rparr>], sell_orders = []\<rparr>)"
    by code_simp
  from ticker_index_zero_uses_last_book
         [OF len, where otype = "''Buy''" and qty = 5 and prc = 100] a
  have "TradingEngine_add_order ''Buy'' 0 5 100 TradingEngine_init =
     (Inr PyNone, [],
      TradingEngine_init\<lparr>order_id_counter := \<lparr>counter_value = 1\<rparr>,
        order_books := (order_books TradingEngine_init)
          [1023 := \<lparr>buy_orders = [\<lparr>order_type = ''Buy'', ticker = ''STOCK0'', quantity = 5,
                             price = 100, order_id = 1\<rparr>], sell_orders = []\<rparr>]\<rparr>)"
    by (simp add: c b Let_def)
  with len b show ?thesis by simp
qed

end
